theory Spec2Isabelle
  imports Complex_Main "HOL-Library.Word"
begin

section \<open>JavaScript strings\<close>

text \<open>
  A JavaScript string is a sequence of UTF-16 code units. The regular expressions of
  \<^verbatim>\<open>fileMapper.ts\<close> carry no \<^verbatim>\<open>u\<close> flag, so they too work on code units.
  \<open>str\<close> turns an ASCII literal into such a string.
\<close>

type_synonym jschar = "16 word"
type_synonym jstring = "jschar list"

definition str :: "string \<Rightarrow> jstring" where
  "str s = map of_char s"

definition NL :: jschar where
  "NL = 0x0A"

text \<open>
  The code units that \<^verbatim>\<open>\s\<close> matches and that \<^verbatim>\<open>String.prototype.trim\<close> strips
  (ECMAScript's WhiteSpace and LineTerminator): TAB, LF, VT, FF, CR, SP, NBSP, U+1680,
  U+2000 to U+200A, U+2028, U+2029, U+202F, U+205F, U+3000 and U+FEFF.
\<close>

definition is_space :: "jschar \<Rightarrow> bool" where
  "is_space c =
     (c = 0x09 \<or> c = 0x0A \<or> c = 0x0B \<or> c = 0x0C \<or> c = 0x0D \<or> c = 0x20 \<or> c = 0xA0 \<or>
      c = 0x1680 \<or> (0x2000 \<le> c \<and> c \<le> 0x200A) \<or> c = 0x2028 \<or> c = 0x2029 \<or>
      c = 0x202F \<or> c = 0x205F \<or> c = 0x3000 \<or> c = 0xFEFF)"

text \<open>
  The character class of the token pattern,
  \<^verbatim>\<open>[.,!?;:'"(){}\[\]<>\/\\=+-]\<close>: the 21 characters
  \<^verbatim>\<open>. , ! ? ; : ' " ( ) { } [ ] < > / \ = + -\<close>.
\<close>

definition is_punct :: "jschar \<Rightarrow> bool" where
  "is_punct c =
     (c = 0x2E \<or> c = 0x2C \<or> c = 0x21 \<or> c = 0x3F \<or> c = 0x3B \<or> c = 0x3A \<or> c = 0x27 \<or>
      c = 0x22 \<or> c = 0x28 \<or> c = 0x29 \<or> c = 0x7B \<or> c = 0x7D \<or> c = 0x5B \<or> c = 0x5D \<or>
      c = 0x3C \<or> c = 0x3E \<or> c = 0x2F \<or> c = 0x5C \<or> c = 0x3D \<or> c = 0x2B \<or> c = 0x2D)"

text \<open>\<^verbatim>\<open>s.trim()\<close>.\<close>

definition trim :: "jstring \<Rightarrow> jstring" where
  "trim s = rev (dropWhile is_space (rev (dropWhile is_space s)))"

text \<open>\<^verbatim>\<open>s.startsWith(p)\<close>.\<close>

definition startsWith :: "jstring \<Rightarrow> jstring \<Rightarrow> bool" where
  "startsWith s p = (take (length p) s = p)"

text \<open>
  \<^verbatim>\<open>text.split("\n")\<close>: the pieces between line feeds; the empty string gives one empty
  piece.
\<close>

fun split_lines :: "jstring \<Rightarrow> jstring list" where
  "split_lines [] = [[]]"
| "split_lines (c # cs) =
     (if c = NL then [] # split_lines cs
      else (case split_lines cs of [] \<Rightarrow> [[c]] | l # ls \<Rightarrow> (c # l) # ls))"

section \<open>The token estimator\<close>

text \<open>
  \<^verbatim>\<open>s.split(/\s+|([.,!?;:'"(){}\[\]<>\/\\=+-])/g)\<close>, following the steps of
  \<^verbatim>\<open>RegExp.prototype[Symbol.split]\<close>. The pattern is tried at each position in turn.
  Where it does not match, the character joins the current piece \<open>piece\<close>. Where it
  matches, the piece read so far is pushed (also when it is empty), then the value of
  the capture group: \<^verbatim>\<open>undefined\<close> (here \<open>None\<close>) when the first alternative matched
  a run of white space, the punctuation character itself when the second did; the
  search goes on after the match. The last piece is pushed at the end.
\<close>

function split_tokens :: "jstring \<Rightarrow> jstring \<Rightarrow> jstring option list" where
  "split_tokens piece [] = [Some piece]"
| "split_tokens piece (c # cs) =
     (if is_space c then Some piece # None # split_tokens [] (dropWhile is_space cs)
      else if is_punct c then Some piece # Some [c] # split_tokens [] cs
      else split_tokens (piece @ [c]) cs)"
  by pat_completeness auto
termination
  by (relation "measure (\<lambda>(piece, s). length s)")
     (auto simp: length_dropWhile_le less_Suc_eq_le)

text \<open>The filter \<^verbatim>\<open>(token) => token && token.trim() !== ""\<close>.\<close>

fun keep_token :: "jstring option \<Rightarrow> bool" where
  "keep_token None = False"
| "keep_token (Some t) = (t \<noteq> [] \<and> trim t \<noteq> [])"

definition count_tokens :: "jstring \<Rightarrow> nat" where
  "count_tokens s = length (filter keep_token (split_tokens [] s))"

text \<open>
  The loop over the lines, with its three variables. \<open>fence\<close> is the string of three
  backticks.
\<close>

record scan_state =
  inCodeBlock :: bool
  codeBlockContent :: jstring
  normalContent :: jstring

definition fence :: jstring where
  "fence = [0x60, 0x60, 0x60]"

definition scan_line :: "scan_state \<Rightarrow> jstring \<Rightarrow> scan_state" where
  "scan_line st line =
     (if startsWith (trim line) fence then st\<lparr>inCodeBlock := \<not> inCodeBlock st\<rparr>
      else if inCodeBlock st then st\<lparr>codeBlockContent := codeBlockContent st @ line @ [NL]\<rparr>
      else st\<lparr>normalContent := normalContent st @ line @ [NL]\<rparr>)"

text \<open>
  \<^verbatim>\<open>Math.ceil(codeTokenEstimate * 1.2)\<close>. The product is taken here in the reals; the
  double-precision product of the source has the same ceiling for every count a string
  can hold.
\<close>

definition ceil_1_2 :: "nat \<Rightarrow> nat" where
  "ceil_1_2 n = nat \<lceil>real n * 1.2\<rceil>"

text \<open>
  \<^verbatim>\<open>estimateTokenCount\<close>. The source first computes \<^verbatim>\<open>tokens\<close> from the whole text and
  never uses it; that binding is left out.
\<close>

definition estimateTokenCount :: "jstring \<Rightarrow> nat" where
  "estimateTokenCount text =
     (if text = [] then 0
      else
        let st = foldl scan_line
                   \<lparr>inCodeBlock = False, codeBlockContent = [], normalContent = []\<rparr>
                   (split_lines text);
            normalTokenEstimate = count_tokens (normalContent st);
            codeTokenEstimate = count_tokens (codeBlockContent st)
        in normalTokenEstimate + ceil_1_2 codeTokenEstimate)"

subsection \<open>The estimator as the specification words it\<close>

text \<open>
  Splitting a string at every character that satisfies \<open>sep\<close>: the pieces between
  separators, none of which holds a separator.
\<close>

fun fragments :: "(jschar \<Rightarrow> bool) \<Rightarrow> jstring \<Rightarrow> jstring list" where
  "fragments sep [] = [[]]"
| "fragments sep (c # cs) =
     (if sep c then [] # fragments sep cs
      else (case fragments sep cs of [] \<Rightarrow> [[c]] | f # fs \<Rightarrow> (c # f) # fs))"

definition is_boundary :: "jschar \<Rightarrow> bool" where
  "is_boundary c = (is_space c \<or> is_punct c)"

definition nonblank :: "jstring \<Rightarrow> bool" where
  "nonblank f = (f \<noteq> [] \<and> trim f \<noteq> [])"

text \<open>
  The count as the claim words it: split on white space and on each punctuation
  character, discard the empty and the blank pieces, count the rest.
\<close>

definition claimed_tokens :: "jstring \<Rightarrow> nat" where
  "claimed_tokens s = length (filter nonblank (fragments is_boundary s))"

text \<open>
  The count with every punctuation character kept as a token of its own, next to the
  pieces between the boundaries.
\<close>

definition kept_tokens :: "jstring \<Rightarrow> nat" where
  "kept_tokens s = claimed_tokens s + length (filter is_punct s)"

text \<open>
  The two streams: \<open>classify inside ls\<close> is the pair of the prose lines and the code
  lines of \<open>ls\<close>, read from a state that is inside a fenced block or not. A fence line
  joins neither and flips the state. A stream is its lines, each ended by a line feed.
\<close>

fun classify :: "bool \<Rightarrow> jstring list \<Rightarrow> jstring list \<times> jstring list" where
  "classify inside [] = ([], [])"
| "classify inside (l # ls) =
     (if startsWith (trim l) fence then classify (\<not> inside) ls
      else if inside then (fst (classify inside ls), l # snd (classify inside ls))
      else (l # fst (classify inside ls), snd (classify inside ls)))"

definition stream :: "jstring list \<Rightarrow> jstring" where
  "stream ls = concat (map (\<lambda>l. l @ [NL]) ls)"

definition claimed_estimate :: "jstring \<Rightarrow> nat" where
  "claimed_estimate text =
     (if text = [] then 0
      else claimed_tokens (stream (fst (classify False (split_lines text)))) +
           ceil_1_2 (claimed_tokens (stream (snd (classify False (split_lines text))))))"

definition amended_estimate :: "jstring \<Rightarrow> nat" where
  "amended_estimate text =
     (if text = [] then 0
      else kept_tokens (stream (fst (classify False (split_lines text)))) +
           ceil_1_2 (kept_tokens (stream (snd (classify False (split_lines text))))))"

section \<open>Errors\<close>

text \<open>
  Three kinds of exception reach the caller of \<^verbatim>\<open>generateFileMap\<close>: the
  \<^verbatim>\<open>new Error(message)\<close> the function throws itself, the system errors of Node's
  \<^verbatim>\<open>fs\<close> functions (an error code, the system call and the path), and the
  \<^verbatim>\<open>SyntaxError\<close> of \<^verbatim>\<open>new RegExp(source)\<close> (the source and the reason).
  \<open>message\<close> is the \<^verbatim>\<open>message\<close> property: for a system error Node builds
  \<^verbatim>\<open>CODE: description, syscall 'path'\<close>, for the syntax error V8 builds
  \<^verbatim>\<open>Invalid regular expression: /source/: reason\<close>.
\<close>

datatype errno = ENOENT | ENOTDIR | EACCES | EISDIR | ELOOP | EIO

fun errno_text :: "errno \<Rightarrow> jstring" where
  "errno_text ENOENT = str ''ENOENT: no such file or directory''"
| "errno_text ENOTDIR = str ''ENOTDIR: not a directory''"
| "errno_text EACCES = str ''EACCES: permission denied''"
| "errno_text EISDIR = str ''EISDIR: illegal operation on a directory''"
| "errno_text ELOOP = str ''ELOOP: too many symbolic links encountered''"
| "errno_text EIO = str ''EIO: i/o error''"

datatype error =
    Error jstring
  | SystemError errno jstring jstring
  | SyntaxError jstring jstring

definition quote :: jschar where
  "quote = 0x27"

fun message :: "error \<Rightarrow> jstring" where
  "message (Error m) = m"
| "message (SystemError e syscall p) =
     errno_text e @ str '', '' @ syscall @ str '' '' @ [quote] @ p @ [quote]"
| "message (SyntaxError src why) =
     str ''Invalid regular expression: /'' @ src @ str ''/: '' @ why"

text \<open>\<^verbatim>\<open>s.includes(sub)\<close>: \<open>sub\<close> occurs somewhere in \<open>s\<close>.\<close>

fun js_includes :: "jstring \<Rightarrow> jstring \<Rightarrow> bool" where
  "js_includes [] sub = (sub = [])"
| "js_includes (c # cs) sub = (startsWith (c # cs) sub \<or> js_includes cs sub)"

section \<open>Paths\<close>

text \<open>
  Node's \<^verbatim>\<open>path\<close> module on POSIX, as far as the walk uses it. Every path the walk
  builds is \<^verbatim>\<open>dirPath\<close> with directory entry names joined onto it, so a path is kept as
  the text of \<^verbatim>\<open>dirPath\<close> (\<open>base\<close>) and the names joined onto it (\<open>below\<close>, outermost
  first). A directory entry name is not empty, is neither \<^verbatim>\<open>.\<close> nor \<^verbatim>\<open>..\<close> and holds
  no separator; for such names \<^verbatim>\<open>path.join\<close> appends one component,
  \<^verbatim>\<open>path.basename\<close> returns the last component, and \<^verbatim>\<open>path.relative(from, to)\<close>, for
  \<open>to\<close> below \<open>from\<close>, is the components of \<open>to\<close> below \<open>from\<close> joined by the separator.
  \<open>posix_basename\<close> is \<^verbatim>\<open>path.basename\<close> on the text of a path: the part after the last
  separator, trailing separators dropped first. \<open>path_text\<close> is the text of a path as it
  appears in the message of a system error.
\<close>

record fpath =
  base :: jstring
  below :: "jstring list"

definition slash :: jschar where
  "slash = 0x2F"

definition posix_basename :: "jstring \<Rightarrow> jstring" where
  "posix_basename p =
     rev (takeWhile (\<lambda>c. c \<noteq> slash) (dropWhile (\<lambda>c. c = slash) (rev p)))"

definition path_basename :: "fpath \<Rightarrow> jstring" where
  "path_basename p = (if below p = [] then posix_basename (base p) else last (below p))"

definition path_join :: "fpath \<Rightarrow> jstring \<Rightarrow> fpath" where
  "path_join p item = p\<lparr>below := below p @ [item]\<rparr>"

fun join_names :: "jstring list \<Rightarrow> jstring" where
  "join_names [] = []"
| "join_names [x] = x"
| "join_names (x # y # ys) = x @ [slash] @ join_names (y # ys)"

definition path_relative :: "fpath \<Rightarrow> fpath \<Rightarrow> jstring" where
  "path_relative from to = join_names (drop (length (below from)) (below to))"

definition path_text :: "fpath \<Rightarrow> jstring" where
  "path_text p = foldl (\<lambda>a name. a @ [slash] @ name) (base p) (below p)"

section \<open>The file system\<close>

text \<open>
  What a path leads to, as the \<^verbatim>\<open>fs\<close> functions of the walk see it: a file that
  \<^verbatim>\<open>readFileSync(path, "utf8")\<close> reads (with the decoded text), a file it cannot read, a
  directory that \<^verbatim>\<open>readdirSync\<close> lists (the entries in the order it returns them, each
  with what it leads to), a directory it cannot list, or something \<^verbatim>\<open>statSync\<close> fails
  on (a path that does not exist, a dangling symbolic link). The failing cases carry
  the error code of the failure. The file system does not change during a call, but for
  the file the call writes. A tree is finite: a cycle of symbolic links, on which the
  walk of the source goes down until the platform stops it, is not a tree, and neither
  such a stop nor the exhaustion of memory or of the call stack is part of the model.
\<close>

datatype node =
    File jstring
  | UnreadableFile errno
  | Dir "(jstring \<times> node) list"
  | UnlistableDir errno
  | NoStat errno

text \<open>
  The file system: what the text of a path leads to, and the error code with which
  writing a file at a path fails, if it does.
\<close>

record filesystem =
  node_at :: "jstring \<Rightarrow> node"
  write_error :: "jstring \<Rightarrow> errno option"

fun statable :: "node \<Rightarrow> bool" where
  "statable (NoStat e) = False"
| "statable nd = True"

text \<open>\<^verbatim>\<open>fs.existsSync(path)\<close>: false whenever the path cannot be resolved.\<close>

definition existsSync :: "filesystem \<Rightarrow> jstring \<Rightarrow> bool" where
  "existsSync fs p = statable (node_at fs p)"

text \<open>
  \<^verbatim>\<open>fs.readdirSync(path)\<close>, \<^verbatim>\<open>fs.statSync(path).isDirectory()\<close> and
  \<^verbatim>\<open>fs.readFileSync(path, "utf8")\<close>, on the node the path leads to.
\<close>

fun readdirSync :: "fpath \<Rightarrow> node \<Rightarrow> error + (jstring \<times> node) list" where
  "readdirSync p (Dir items) = Inr items"
| "readdirSync p (UnlistableDir e) = Inl (SystemError e (str ''scandir'') (path_text p))"
| "readdirSync p (NoStat e) = Inl (SystemError e (str ''scandir'') (path_text p))"
| "readdirSync p (File c) = Inl (SystemError ENOTDIR (str ''scandir'') (path_text p))"
| "readdirSync p (UnreadableFile e) =
     Inl (SystemError ENOTDIR (str ''scandir'') (path_text p))"

fun statSync_isDirectory :: "fpath \<Rightarrow> node \<Rightarrow> error + bool" where
  "statSync_isDirectory p (NoStat e) = Inl (SystemError e (str ''stat'') (path_text p))"
| "statSync_isDirectory p (Dir items) = Inr True"
| "statSync_isDirectory p (UnlistableDir e) = Inr True"
| "statSync_isDirectory p (File c) = Inr False"
| "statSync_isDirectory p (UnreadableFile e) = Inr False"

fun readFileSync :: "fpath \<Rightarrow> node \<Rightarrow> error + jstring" where
  "readFileSync p (File c) = Inr c"
| "readFileSync p (UnreadableFile e) = Inl (SystemError e (str ''open'') (path_text p))"
| "readFileSync p (NoStat e) = Inl (SystemError e (str ''open'') (path_text p))"
| "readFileSync p (Dir items) = Inl (SystemError EISDIR (str ''read'') (path_text p))"
| "readFileSync p (UnlistableDir e) = Inl (SystemError EISDIR (str ''read'') (path_text p))"

text \<open>
  A string is written to a file in UTF-8. A high surrogate (U+D800 to U+DBFF) followed
  by a low one (U+DC00 to U+DFFF) is one code point and is encoded as such; any other
  surrogate stands alone and is encoded as U+FFFD. \<open>utf8_text s\<close> is the text that the
  encoding of \<open>s\<close> decodes to: \<open>s\<close> with every lone surrogate replaced by U+FFFD.
  \<open>paired s\<close> holds when \<open>s\<close> has no lone surrogate.
\<close>

definition is_high_surrogate :: "jschar \<Rightarrow> bool" where
  "is_high_surrogate c = (0xD800 \<le> c \<and> c \<le> 0xDBFF)"

definition is_low_surrogate :: "jschar \<Rightarrow> bool" where
  "is_low_surrogate c = (0xDC00 \<le> c \<and> c \<le> 0xDFFF)"

fun utf8_text :: "jstring \<Rightarrow> jstring" where
  "utf8_text [] = []"
| "utf8_text [c] = [if is_high_surrogate c \<or> is_low_surrogate c then 0xFFFD else c]"
| "utf8_text (c # d # cs) =
     (if is_high_surrogate c \<and> is_low_surrogate d then c # d # utf8_text cs
      else (if is_high_surrogate c \<or> is_low_surrogate c then 0xFFFD else c) #
           utf8_text (d # cs))"

fun paired :: "jstring \<Rightarrow> bool" where
  "paired [] = True"
| "paired [c] = (\<not> is_high_surrogate c \<and> \<not> is_low_surrogate c)"
| "paired (c # d # cs) =
     (if is_high_surrogate c \<and> is_low_surrogate d then paired cs
      else \<not> is_high_surrogate c \<and> \<not> is_low_surrogate c \<and> paired (d # cs))"

text \<open>
  \<^verbatim>\<open>fs.writeFileSync(path, data)\<close>: afterwards the file at \<open>path\<close> holds the UTF-8
  encoding of \<open>data\<close> and nothing else, so that its text is \<open>utf8_text data\<close>; or the call
  fails.
\<close>

definition writeFileSync :: "filesystem \<Rightarrow> jstring \<Rightarrow> jstring \<Rightarrow> error + filesystem" where
  "writeFileSync fs p data =
     (case write_error fs p of
        Some e \<Rightarrow> Inl (SystemError e (str ''open'') p)
      | None \<Rightarrow> Inr (fs\<lparr>node_at := (node_at fs)(p := File (utf8_text data))\<rparr>))"

section \<open>The ignore matcher\<close>

text \<open>
  \<^verbatim>\<open>new RegExp(source)\<close> either throws a \<^verbatim>\<open>SyntaxError\<close> (\<open>Inl\<close>, with the reason) or
  gives an object whose \<^verbatim>\<open>test\<close> method, with no flag set, is a predicate on strings.
  The engine is a parameter of the matcher and of the walk: what is proved of them
  for every engine holds of the engine of the platform.
\<close>

type_synonym regexp = "jstring \<Rightarrow> jstring + (jstring \<Rightarrow> bool)"

definition star :: jschar where
  "star = 0x2A"

definition dot :: jschar where
  "dot = 0x2E"

definition backslash :: jschar where
  "backslash = 0x5C"

definition caret :: jschar where
  "caret = 0x5E"

definition dollar :: jschar where
  "dollar = 0x24"

text \<open>\<^verbatim>\<open>pattern.replace(/\./g, "\\.")\<close> and \<^verbatim>\<open>.replace(/\*/g, ".*")\<close>.\<close>

definition escape_dots :: "jstring \<Rightarrow> jstring" where
  "escape_dots p = concat (map (\<lambda>c. if c = dot then [backslash, dot] else [c]) p)"

definition expand_stars :: "jstring \<Rightarrow> jstring" where
  "expand_stars p = concat (map (\<lambda>c. if c = star then [dot, star] else [c]) p)"

text \<open>The callback of \<^verbatim>\<open>ignorePatterns.some\<close>, for one pattern.\<close>

definition matches_pattern :: "regexp \<Rightarrow> jstring \<Rightarrow> jstring \<Rightarrow> error + bool" where
  "matches_pattern RegExp itemName pattern =
     (if pattern = itemName then Inr True
      else if star \<in> set pattern then
        (let regexPattern = expand_stars (escape_dots pattern);
             source = [caret] @ regexPattern @ [dollar]
         in case RegExp source of
              Inl why \<Rightarrow> Inl (SyntaxError source why)
            | Inr test \<Rightarrow> Inr (test itemName))
      else Inr False)"

text \<open>
  \<^verbatim>\<open>Array.prototype.some\<close>: the callback runs on the elements in order until one
  returns true; an exception of the callback ends the call.
\<close>

fun some_pattern :: "(jstring \<Rightarrow> error + bool) \<Rightarrow> jstring list \<Rightarrow> error + bool" where
  "some_pattern f [] = Inr False"
| "some_pattern f (pattern # rest) =
     (case f pattern of
        Inl e \<Rightarrow> Inl e
      | Inr hit \<Rightarrow> if hit then Inr True else some_pattern f rest)"

definition shouldIgnore :: "regexp \<Rightarrow> fpath \<Rightarrow> jstring list \<Rightarrow> error + bool" where
  "shouldIgnore RegExp itemPath ignorePatterns =
     (let itemName = path_basename itemPath
      in some_pattern (matches_pattern RegExp itemName) ignorePatterns)"

subsection \<open>A fragment of the ECMAScript pattern language\<close>

text \<open>
  A model of \<^verbatim>\<open>new RegExp(source)\<close> and \<^verbatim>\<open>test\<close> for the patterns built from
  these pieces only: the assertions \<^verbatim>\<open>^\<close> and \<^verbatim>\<open>$\<close>; the atoms \<^verbatim>\<open>.\<close> (any code unit
  but a line terminator), a character that is not a syntax character, the brackets
  \<^verbatim>\<open>]\<close> and \<^verbatim>\<open>}\<close> standing alone (pattern characters by Annex B of ECMAScript), and a
  backslash before a syntax character; after an atom one of the quantifiers \<^verbatim>\<open>*\<close>,
  \<^verbatim>\<open>+\<close>, \<^verbatim>\<open>?\<close>, greedy or lazy. Three mistakes are rejected as the language rejects
  them: a quantifier with no atom before it, a backslash at the end, and a character
  class that is never closed. Every other pattern (groups, alternatives, closed
  character classes, braces, other escapes) is \<open>Outside\<close> the fragment, and the model
  says nothing about it.

  \<^verbatim>\<open>test\<close> tells whether some substring matches; which substring the backtracking
  finds first does not matter to it. \<open>matches_from ts at_start s\<close> holds when the terms
  \<open>ts\<close> match a prefix of \<open>s\<close>, where \<open>at_start\<close> tells whether \<open>s\<close> is the whole input.
\<close>

datatype atom = Lit jschar | AnyChar

datatype quantifier = Once | Optional | ZeroOrMore | OneOrMore

datatype rx_term = Bol | Eol | Match atom quantifier

datatype 'a parse = Parsed 'a | Rejected jstring | Outside

definition is_syntax_char :: "jschar \<Rightarrow> bool" where
  "is_syntax_char c =
     (c = 0x5E \<or> c = 0x24 \<or> c = 0x5C \<or> c = 0x2E \<or> c = 0x2A \<or> c = 0x2B \<or> c = 0x3F \<or>
      c = 0x28 \<or> c = 0x29 \<or> c = 0x5B \<or> c = 0x5D \<or> c = 0x7B \<or> c = 0x7D \<or> c = 0x7C)"

definition is_line_terminator :: "jschar \<Rightarrow> bool" where
  "is_line_terminator c = (c = 0x0A \<or> c = 0x0D \<or> c = 0x2028 \<or> c = 0x2029)"

text \<open>
  Whether the text after an opening bracket holds the closing one; a backslash takes
  the character after it along.
\<close>

fun class_closed :: "jstring \<Rightarrow> bool" where
  "class_closed [] = False"
| "class_closed [c] = (c = 0x5D)"
| "class_closed (c # d # cs) =
     (if c = 0x5D then True
      else if c = backslash then class_closed cs
      else class_closed (d # cs))"

fun read_quantifier :: "jstring \<Rightarrow> quantifier \<times> jstring" where
  "read_quantifier [] = (Once, [])"
| "read_quantifier (c # cs) =
     (let lazy = (\<lambda>rest. case rest of [] \<Rightarrow> [] | d # ds \<Rightarrow> if d = 0x3F then ds else d # ds) in
      if c = star then (ZeroOrMore, lazy cs)
      else if c = 0x2B then (OneOrMore, lazy cs)
      else if c = 0x3F then (Optional, lazy cs)
      else (Once, c # cs))"

fun parse_cons :: "rx_term \<Rightarrow> rx_term list parse \<Rightarrow> rx_term list parse" where
  "parse_cons t (Parsed ts) = Parsed (t # ts)"
| "parse_cons t (Rejected why) = Rejected why"
| "parse_cons t Outside = Outside"

lemma read_quantifier_length: "length (snd (read_quantifier s)) \<le> length s"
  by (cases s) (auto simp: Let_def split: list.splits)

function parse_pattern :: "jstring \<Rightarrow> rx_term list parse" where
  "parse_pattern [] = Parsed []"
| "parse_pattern (c # cs) =
     (if c = caret then parse_cons Bol (parse_pattern cs)
      else if c = dollar then parse_cons Eol (parse_pattern cs)
      else if c = star \<or> c = 0x2B \<or> c = 0x3F then Rejected (str ''Nothing to repeat'')
      else if c = 0x5B then
        (if class_closed cs then Outside else Rejected (str ''Unterminated character class''))
      else if c = 0x28 \<or> c = 0x29 \<or> c = 0x7C \<or> c = 0x7B then Outside
      else if c = backslash then
        (case cs of
           [] \<Rightarrow> Rejected (backslash # str '' at end of pattern'')
         | d # ds \<Rightarrow>
             if is_syntax_char d then
               parse_cons (Match (Lit d) (fst (read_quantifier ds)))
                 (parse_pattern (snd (read_quantifier ds)))
             else Outside)
      else
        parse_cons (Match (if c = dot then AnyChar else Lit c) (fst (read_quantifier cs)))
          (parse_pattern (snd (read_quantifier cs))))"
  by pat_completeness auto
termination
  by (relation "measure length")
     (auto simp: less_Suc_eq_le intro: le_trans[OF read_quantifier_length])

fun atom_accepts :: "atom \<Rightarrow> jschar \<Rightarrow> bool" where
  "atom_accepts (Lit d) c = (c = d)"
| "atom_accepts AnyChar c = (\<not> is_line_terminator c)"

fun matches_from :: "rx_term list \<Rightarrow> bool \<Rightarrow> jstring \<Rightarrow> bool" where
  "matches_from [] at_start s = True"
| "matches_from (Bol # ts) at_start s = (at_start \<and> matches_from ts at_start s)"
| "matches_from (Eol # ts) at_start s = (s = [] \<and> matches_from ts at_start s)"
| "matches_from (Match a Once # ts) at_start [] = False"
| "matches_from (Match a Once # ts) at_start (c # cs) =
     (atom_accepts a c \<and> matches_from ts False cs)"
| "matches_from (Match a Optional # ts) at_start [] = matches_from ts at_start []"
| "matches_from (Match a Optional # ts) at_start (c # cs) =
     (matches_from ts at_start (c # cs) \<or> atom_accepts a c \<and> matches_from ts False cs)"
| "matches_from (Match a ZeroOrMore # ts) at_start [] = matches_from ts at_start []"
| "matches_from (Match a ZeroOrMore # ts) at_start (c # cs) =
     (matches_from ts at_start (c # cs) \<or>
      atom_accepts a c \<and> matches_from (Match a ZeroOrMore # ts) False cs)"
| "matches_from (Match a OneOrMore # ts) at_start [] = False"
| "matches_from (Match a OneOrMore # ts) at_start (c # cs) =
     (atom_accepts a c \<and> matches_from (Match a ZeroOrMore # ts) False cs)"

fun search :: "rx_term list \<Rightarrow> bool \<Rightarrow> jstring \<Rightarrow> bool" where
  "search ts at_start [] = matches_from ts at_start []"
| "search ts at_start (c # cs) = (matches_from ts at_start (c # cs) \<or> search ts False cs)"

text \<open>
  The engine of the fragment. It is total only so that it can stand for the parameter:
  on a pattern outside the fragment its answer means nothing, and it is used below on
  patterns of the fragment only.
\<close>

definition fragment_regexp :: regexp where
  "fragment_regexp source =
     (case parse_pattern source of
        Parsed ts \<Rightarrow> Inr (search ts True)
      | Rejected why \<Rightarrow> Inl why
      | Outside \<Rightarrow> Inl (str ''outside the modelled fragment''))"

subsection \<open>The ignore matcher as the specification words it\<close>

text \<open>
  A pattern is safe when it holds no syntax character of the pattern language but the
  full stop and the star. \<open>glob p name\<close>: the whole name matches the pattern, each star
  standing for a sequence of characters that are not line terminators (the characters
  the full stop of a regular expression matches) and every other character for
  itself. \<open>pattern_matches\<close> is the rule of the specification for one pattern: a pattern
  with no star matches the name equal to it. \<open>term_of\<close> and \<open>translate\<close> describe the
  regular expression the source builds from a safe pattern, after the caret.
\<close>

definition safe_pattern :: "jstring \<Rightarrow> bool" where
  "safe_pattern p = list_all (\<lambda>c. c = dot \<or> c = star \<or> \<not> is_syntax_char c) p"

fun glob :: "jstring \<Rightarrow> jstring \<Rightarrow> bool" where
  "glob [] s = (s = [])"
| "glob (c # p) [] = (c = star \<and> glob p [])"
| "glob (c # p) (d # ds) =
     (if c = star then glob p (d # ds) \<or> \<not> is_line_terminator d \<and> glob (c # p) ds
      else d = c \<and> glob p ds)"

definition term_of :: "jschar \<Rightarrow> rx_term" where
  "term_of c = (if c = star then Match AnyChar ZeroOrMore else Match (Lit c) Once)"

definition translate :: "jstring \<Rightarrow> jstring" where
  "translate p = expand_stars (escape_dots p) @ [dollar]"

definition pattern_matches :: "jstring \<Rightarrow> jstring \<Rightarrow> bool" where
  "pattern_matches name p = (if star \<in> set p then glob p name else p = name)"

section \<open>The walk\<close>

text \<open>
  The three variables that \<^verbatim>\<open>processDirectory\<close> updates, and the result and the
  options of \<^verbatim>\<open>generateFileMap\<close>. The field \<^verbatim>\<open>total\<close> of \<^verbatim>\<open>tokenCount\<close> is
  \<open>totalTokens\<close> here.
\<close>

record walk_state =
  fileMap :: jstring
  fileContents :: jstring
  fileTokens :: "jstring \<rightharpoonup> nat"

record token_count =
  totalTokens :: nat
  fileMapTokens :: nat
  fileContentsTokens :: nat

record FileMapResult = walk_state +
  tokenCount :: token_count

record FileMapOptions =
  outputPath :: "jstring option"
  ignorePatterns :: "jstring list option"

text \<open>
  \<^verbatim>\<open>fileTokens[relativePath] = n\<close> on the object literal \<^verbatim>\<open>{}\<close>. The object inherits
  from \<^verbatim>\<open>Object.prototype\<close>, whose accessor property \<^verbatim>\<open>__proto__\<close> takes the
  assignment to that key: its setter ignores a value that is neither an object nor
  null, so no property is created. Every other key becomes an own property.
\<close>

definition object_set :: "(jstring \<rightharpoonup> nat) \<Rightarrow> jstring \<Rightarrow> nat \<Rightarrow> (jstring \<rightharpoonup> nat)" where
  "object_set obj key v = (if key = str ''__proto__'' then obj else obj(key \<mapsto> v))"

text \<open>
  The connectors and the indentation units of the diagram: U+2514 U+2500 U+2500 SP,
  U+251C U+2500 U+2500 SP, four spaces, and U+2502 with three spaces.
\<close>

definition corner :: jstring where
  "corner = [0x2514, 0x2500, 0x2500, 0x20]"

definition tee :: jstring where
  "tee = [0x251C, 0x2500, 0x2500, 0x20]"

definition blank_indent :: jstring where
  "blank_indent = [0x20, 0x20, 0x20, 0x20]"

definition bar_indent :: jstring where
  "bar_indent = [0x2502, 0x20, 0x20, 0x20]"

text \<open>The block appended to \<^verbatim>\<open>fileContents\<close> for one file.\<close>

definition file_block :: "jstring \<Rightarrow> jstring \<Rightarrow> jstring" where
  "file_block relativePath content =
     str ''File: '' @ relativePath @ [NL] @ fence @ [NL] @ content @ [NL] @ fence @ [NL, NL]"

lemma readdirSync_Inr: "readdirSync p nd = Inr items \<Longrightarrow> nd = Dir items"
  by (cases nd) auto

text \<open>
  \<^verbatim>\<open>processDirectory\<close>, and the callback of its \<^verbatim>\<open>items.forEach\<close> run over the
  entries that are left, \<open>n\<close> being \<^verbatim>\<open>items.length\<close> and \<open>index\<close> the index of the first
  of them. The closure variables are parameters: the engine, the patterns and
  \<^verbatim>\<open>dirPath\<close>; the state goes in and comes out. The first exception ends the walk.
\<close>

function processDirectory ::
    "regexp \<Rightarrow> jstring list \<Rightarrow> fpath \<Rightarrow> fpath \<Rightarrow> jstring \<Rightarrow> node \<Rightarrow> walk_state \<Rightarrow>
     error + walk_state"
  and forEach_item ::
    "regexp \<Rightarrow> jstring list \<Rightarrow> fpath \<Rightarrow> fpath \<Rightarrow> jstring \<Rightarrow> nat \<Rightarrow> nat \<Rightarrow>
     (jstring \<times> node) list \<Rightarrow> walk_state \<Rightarrow> error + walk_state"
where
  "processDirectory RegExp pats dirPath currentPath indent nd st =
     (case readdirSync currentPath nd of
        Inl e \<Rightarrow> Inl e
      | Inr items \<Rightarrow>
          forEach_item RegExp pats dirPath currentPath indent (length items) 0 items st)"
| "forEach_item RegExp pats dirPath currentPath indent n index [] st = Inr st"
| "forEach_item RegExp pats dirPath currentPath indent n index ((item, nd) # rest) st =
     (let fullPath = path_join currentPath item in
      case shouldIgnore RegExp fullPath pats of
        Inl e \<Rightarrow> Inl e
      | Inr True \<Rightarrow> forEach_item RegExp pats dirPath currentPath indent n (index + 1) rest st
      | Inr False \<Rightarrow>
          (let isLast = (index = n - 1);
               prefix = (if isLast then corner else tee)
           in case statSync_isDirectory fullPath nd of
                Inl e \<Rightarrow> Inl e
              | Inr isDirectory \<Rightarrow>
                  (let st1 = st\<lparr>fileMap := fileMap st @ indent @ prefix @ item @ [NL]\<rparr> in
                   if isDirectory then
                     (case processDirectory RegExp pats dirPath fullPath
                             (indent @ (if isLast then blank_indent else bar_indent)) nd st1 of
                        Inl e \<Rightarrow> Inl e
                      | Inr st2 \<Rightarrow>
                          forEach_item RegExp pats dirPath currentPath indent n (index + 1)
                            rest st2)
                   else
                     (case readFileSync fullPath nd of
                        Inl e \<Rightarrow> Inl e
                      | Inr content \<Rightarrow>
                          (let relativePath = path_relative dirPath fullPath;
                               st2 = st1\<lparr>fileContents :=
                                          fileContents st1 @ file_block relativePath content,
                                        fileTokens :=
                                          object_set (fileTokens st1) relativePath
                                            (estimateTokenCount content)\<rparr>
                           in forEach_item RegExp pats dirPath currentPath indent n (index + 1)
                                rest st2)))))"
  by pat_completeness auto
termination
  apply (relation "measure (\<lambda>x. case x of
           Inl (RegExp, pats, dirPath, currentPath, indent, nd, st) \<Rightarrow> 2 * size nd
         | Inr (RegExp, pats, dirPath, currentPath, indent, n, index, items, st) \<Rightarrow>
             2 * size_list (size_prod (\<lambda>name. 0) size) items + 1)")
  apply (auto dest!: readdirSync_Inr)
  done

text \<open>
  \<^verbatim>\<open>generateFileMap\<close>. It returns the result and the file system the call leaves
  behind, or the exception. An \<^verbatim>\<open>outputPath\<close> that is the empty string is falsy, and
  nothing is written for it.
\<close>

definition generateFileMap ::
    "regexp \<Rightarrow> filesystem \<Rightarrow> jstring \<Rightarrow> FileMapOptions \<Rightarrow> error + FileMapResult \<times> filesystem"
where
  "generateFileMap RegExp fs dirPath options =
     (let pats = (case ignorePatterns options of None \<Rightarrow> [] | Some ps \<Rightarrow> ps) in
      if \<not> existsSync fs dirPath then Inl (Error (str ''Directory not found: '' @ dirPath))
      else
        (let rootPath = \<lparr>base = dirPath, below = []\<rparr>;
             dirName = path_basename rootPath;
             st0 = \<lparr>fileMap = dirName @ [NL], fileContents = [], fileTokens = Map.empty\<rparr>
         in case processDirectory RegExp pats rootPath rootPath [] (node_at fs dirPath) st0 of
              Inl e \<Rightarrow> Inl e
            | Inr st \<Rightarrow>
                (let mapTokens = estimateTokenCount (fileMap st);
                     contentsTokens = estimateTokenCount (fileContents st);
                     result = \<lparr>fileMap = fileMap st, fileContents = fileContents st,
                               fileTokens = fileTokens st,
                               tokenCount = \<lparr>totalTokens = mapTokens + contentsTokens,
                                              fileMapTokens = mapTokens,
                                              fileContentsTokens = contentsTokens\<rparr>\<rparr>
                 in case outputPath options of
                      None \<Rightarrow> Inr (result, fs)
                    | Some out \<Rightarrow>
                        if out = [] then Inr (result, fs)
                        else
                          (let mdContent =
                                 str ''# Directory Structure for '' @ dirName @ [NL, NL] @
                                 fence @ [NL] @ fileMap st @ fence @ [NL, NL] @
                                 str ''# File Contents'' @ [NL, NL] @ fileContents st
                           in case writeFileSync fs out mdContent of
                                Inl e \<Rightarrow> Inl e
                              | Inr fs' \<Rightarrow> Inr (result, fs')))))"

section \<open>What the walk visits\<close>

text \<open>
  The walk without its state and its exceptions. An entry is ignored when
  \<open>shouldIgnore\<close> returns true for it. \<open>walk_entries\<close> lists, in the order of the walk,
  every entry that is not ignored and is reached through directories that are not
  ignored: the text the diagram puts before its name (indentation and connector), its
  path, and what the path leads to. \<open>n\<close> is the length of the whole listing and \<open>i\<close> the
  index of its first entry still to come, as in \<open>forEach_item\<close>.
\<close>

definition ignored :: "regexp \<Rightarrow> jstring list \<Rightarrow> fpath \<Rightarrow> bool" where
  "ignored RegExp pats p = (shouldIgnore RegExp p pats = Inr True)"

function walk_entries ::
    "regexp \<Rightarrow> jstring list \<Rightarrow> fpath \<Rightarrow> jstring \<Rightarrow> nat \<Rightarrow> nat \<Rightarrow> (jstring \<times> node) list \<Rightarrow>
     (jstring \<times> fpath \<times> node) list"
where
  "walk_entries RegExp pats cur indent n i [] = []"
| "walk_entries RegExp pats cur indent n i ((item, nd) # rest) =
     (if ignored RegExp pats (path_join cur item)
      then walk_entries RegExp pats cur indent n (i + 1) rest
      else
        (indent @ (if i = n - 1 then corner else tee), path_join cur item, nd) #
        (case nd of
           Dir sub \<Rightarrow>
             walk_entries RegExp pats (path_join cur item)
               (indent @ (if i = n - 1 then blank_indent else bar_indent)) (length sub) 0 sub
         | _ \<Rightarrow> []) @
        walk_entries RegExp pats cur indent n (i + 1) rest)"
  by pat_completeness auto
termination
  by (relation "measure (\<lambda>(RegExp, pats, cur, indent, n, i, items).
        size_list (size_prod (\<lambda>name. 0) size) items)") auto

text \<open>
  What a list of visited entries adds to the state: a diagram line for each, and for
  each file its block and its token count.
\<close>

fun emit :: "fpath \<Rightarrow> walk_state \<Rightarrow> (jstring \<times> fpath \<times> node) list \<Rightarrow> walk_state" where
  "emit dirPath st [] = st"
| "emit dirPath st ((decor, p, nd) # es) =
     emit dirPath
       (case nd of
          File content \<Rightarrow>
            st\<lparr>fileMap := fileMap st @ decor @ path_basename p @ [NL],
               fileContents := fileContents st @ file_block (path_relative dirPath p) content,
               fileTokens := object_set (fileTokens st) (path_relative dirPath p)
                               (estimateTokenCount content)\<rparr>
        | _ \<Rightarrow> st\<lparr>fileMap := fileMap st @ decor @ path_basename p @ [NL]\<rparr>)
       es"

text \<open>
  The same, one output at a time: the lines of the diagram, the files among the visited
  entries in order (path and text), their blocks, and the object that is left after
  their counts were assigned one by one.
\<close>

definition diagram_of :: "(jstring \<times> fpath \<times> node) list \<Rightarrow> jstring" where
  "diagram_of es = concat (map (\<lambda>(decor, p, nd). decor @ path_basename p @ [NL]) es)"

fun files_of :: "(jstring \<times> fpath \<times> node) list \<Rightarrow> (fpath \<times> jstring) list" where
  "files_of [] = []"
| "files_of ((decor, p, File content) # es) = (p, content) # files_of es"
| "files_of (e # es) = files_of es"

definition contents_of :: "fpath \<Rightarrow> (fpath \<times> jstring) list \<Rightarrow> jstring" where
  "contents_of dirPath files =
     concat (map (\<lambda>(p, content). file_block (path_relative dirPath p) content) files)"

definition tokens_of ::
    "fpath \<Rightarrow> (jstring \<rightharpoonup> nat) \<Rightarrow> (fpath \<times> jstring) list \<Rightarrow> (jstring \<rightharpoonup> nat)" where
  "tokens_of dirPath obj files =
     foldl (\<lambda>m (p, content). object_set m (path_relative dirPath p) (estimateTokenCount content))
       obj files"

text \<open>
  \<open>prune\<close> puts, at every level, in the place of what an ignored entry leads to
  something on which every operation fails. Two listings with the same \<open>prune\<close> have
  the same names in the same order and differ only in and below ignored entries.
\<close>

function prune ::
    "regexp \<Rightarrow> jstring list \<Rightarrow> fpath \<Rightarrow> (jstring \<times> node) list \<Rightarrow> (jstring \<times> node) list"
where
  "prune RegExp pats cur [] = []"
| "prune RegExp pats cur ((item, nd) # rest) =
     (item,
      if ignored RegExp pats (path_join cur item) then NoStat ENOENT
      else (case nd of
              Dir sub \<Rightarrow> Dir (prune RegExp pats (path_join cur item) sub)
            | _ \<Rightarrow> nd)) #
     prune RegExp pats cur rest"
  by pat_completeness auto
termination
  by (relation "measure (\<lambda>(RegExp, pats, cur, items).
        size_list (size_prod (\<lambda>name. 0) size) items)") auto

text \<open>
  The patterns of a call (none when the option is absent), the path of the root
  directory, and the entries a call visits in a root directory with listing \<open>items\<close>.
\<close>

definition patterns_of :: "FileMapOptions \<Rightarrow> jstring list" where
  "patterns_of options = (case ignorePatterns options of None \<Rightarrow> [] | Some ps \<Rightarrow> ps)"

definition top_of :: "jstring \<Rightarrow> fpath" where
  "top_of dirPath = \<lparr>base = dirPath, below = []\<rparr>"

definition visited ::
    "regexp \<Rightarrow> jstring list \<Rightarrow> jstring \<Rightarrow> (jstring \<times> node) list \<Rightarrow>
     (jstring \<times> fpath \<times> node) list" where
  "visited RegExp pats dirPath items =
     walk_entries RegExp pats (top_of dirPath) [] (length items) 0 items"


text \<open>An exception made by \<^verbatim>\<open>new Error\<close>, as opposed to one of the platform.\<close>

fun is_Error :: "error \<Rightarrow> bool" where
  "is_Error (Error m) = True"
| "is_Error e = False"

section \<open>Sample file systems\<close>

text \<open>
  \<open>fs_demo\<close>: the directory \<^verbatim>\<open>/r\<close> holds the file \<^verbatim>\<open>a\<close>, the directory \<^verbatim>\<open>d\<close> with the file
  \<^verbatim>\<open>b\<close>, and last a dangling link \<^verbatim>\<open>skip\<close>; \<^verbatim>\<open>/f\<close> is a file; nothing else exists, and
  every write succeeds. \<open>fs_proto\<close>: the directory \<^verbatim>\<open>/r\<close> holds one file, named
  \<^verbatim>\<open>__proto__\<close>. \<open>fs_phrase\<close>: the only path that exists is a file named
  \<^verbatim>\<open>Directory not found\<close>. \<open>fs_plus\<close>: the directory \<^verbatim>\<open>/r\<close> holds one file, named
  \<^verbatim>\<open>a+b\<close>. \<open>fs_nested\<close>: the directory \<^verbatim>\<open>/x/r/\<close> (the path as the caller writes it,
  with the separator at its end) holds the file \<^verbatim>\<open>a\<close>. \<open>fs_surrogate\<close>: the path that
  is the single code unit U+D800, a lone surrogate, leads to an empty directory (the
  platform encodes the path in UTF-8 too, so this is a directory named U+FFFD).
\<close>

definition fs_plus :: filesystem where
  "fs_plus =
     \<lparr>node_at = (\<lambda>p.
        if p = str ''/r'' then Dir [(str ''a+b'', File (str ''x''))]
        else NoStat ENOENT),
      write_error = (\<lambda>p. None)\<rparr>"



definition fs_demo :: filesystem where
  "fs_demo =
     \<lparr>node_at = (\<lambda>p.
        if p = str ''/r'' then
          Dir [(str ''a'', File (str ''x y'')),
               (str ''d'', Dir [(str ''b'', File (str ''z''))]),
               (str ''skip'', NoStat ENOENT)]
        else if p = str ''/f'' then File (str ''x'')
        else NoStat ENOENT),
      write_error = (\<lambda>p. None)\<rparr>"

definition fs_proto :: filesystem where
  "fs_proto =
     \<lparr>node_at = (\<lambda>p.
        if p = str ''/r'' then Dir [(str ''__proto__'', File (str ''x''))]
        else NoStat ENOENT),
      write_error = (\<lambda>p. None)\<rparr>"

definition fs_phrase :: filesystem where
  "fs_phrase =
     \<lparr>node_at = (\<lambda>p.
        if p = str ''Directory not found'' then File (str ''x'') else NoStat ENOENT),
      write_error = (\<lambda>p. None)\<rparr>"

section \<open>Properties of the token estimator\<close>

lemma ceil_1_2_div: "ceil_1_2 n = (6 * n + 4) div 5"
proof -
  have "real n * 1.2 = real_of_int (6 * int n) / real_of_int 5"
    by simp
  then have "\<lceil>real n * 1.2\<rceil> = - (- (6 * int n) div 5)"
    by (simp only: ceiling_divide_eq_div)
  also have "\<dots> = int ((6 * n + 4) div 5)"
    by (simp add: zdiv_int)
  finally show ?thesis
    by (simp add: ceil_1_2_def)
qed

lemma fragments_nonempty: "fragments sep s \<noteq> []"
  by (induction s) (auto split: list.splits)

lemma dropWhile_none: "\<forall>c \<in> set xs. \<not> P c \<Longrightarrow> dropWhile P xs = xs"
  by (cases xs) auto

lemma trim_no_space: "\<forall>c \<in> set f. \<not> is_space c \<Longrightarrow> trim f = f"
  by (simp add: trim_def dropWhile_none)

lemma fragments_append_clean:
  "\<forall>c \<in> set p. \<not> sep c \<Longrightarrow>
   fragments sep (p @ s) = (p @ hd (fragments sep s)) # tl (fragments sep s)"
  using fragments_nonempty[of sep s]
  by (induction p) (auto split: list.splits)

lemma scan_fold:
  "foldl scan_line st ls =
     st\<lparr>inCodeBlock :=
          (if even (length (filter (\<lambda>l. startsWith (trim l) fence) ls))
           then inCodeBlock st else \<not> inCodeBlock st),
        codeBlockContent := codeBlockContent st @ stream (snd (classify (inCodeBlock st) ls)),
        normalContent := normalContent st @ stream (fst (classify (inCodeBlock st) ls))\<rparr>"
  by (induction ls arbitrary: st) (auto simp: scan_line_def stream_def)

lemma count_dropWhile_space:
  "length (filter nonblank (fragments is_boundary (dropWhile is_space cs))) =
   length (filter nonblank (fragments is_boundary cs))"
  by (induction cs) (auto simp: is_boundary_def nonblank_def)

lemma punct_not_space: "is_punct c \<Longrightarrow> \<not> is_space c"
  by (auto simp: is_punct_def is_space_def)

lemma punct_dropWhile_space:
  "filter is_punct (dropWhile is_space cs) = filter is_punct cs"
  by (induction cs) (auto dest: punct_not_space)

lemma keep_punct: "is_punct c \<Longrightarrow> keep_token (Some [c])"
  by (auto simp: trim_def dest: punct_not_space)

text \<open>
  What the split of the source keeps: the nonblank pieces between boundaries, and every
  punctuation character. \<open>piece\<close> is the piece being read, free of boundaries.
\<close>

lemma split_tokens_count:
  "\<forall>c \<in> set piece. \<not> is_boundary c \<Longrightarrow>
   length (filter keep_token (split_tokens piece s)) =
   length (filter nonblank (fragments is_boundary (piece @ s))) + length (filter is_punct s)"
proof (induction piece s rule: split_tokens.induct)
  case (1 piece)
  then show ?case
    using fragments_append_clean[of piece is_boundary "[]"] by (simp add: nonblank_def)
next
  case (2 piece c cs)
  have clean: "\<forall>c \<in> set piece. \<not> is_boundary c"
    using "2.prems" .
  show ?case
  proof (cases "is_space c")
    case True
    then have np: "\<not> is_punct c" and bc: "is_boundary c"
      using punct_not_space by (auto simp: is_boundary_def)
    have "length (filter keep_token (split_tokens piece (c # cs))) =
          (if nonblank piece then 1 else 0) +
          length (filter keep_token (split_tokens [] (dropWhile is_space cs)))"
      using True by (simp add: nonblank_def)
    also have "length (filter keep_token (split_tokens [] (dropWhile is_space cs))) =
          length (filter nonblank (fragments is_boundary cs)) + length (filter is_punct cs)"
      using "2.IH"(1)[OF True] by (simp add: count_dropWhile_space punct_dropWhile_space)
    finally show ?thesis
      using True np bc clean by (simp add: fragments_append_clean)
  next
    case False
    show ?thesis
    proof (cases "is_punct c")
      case True
      then have bc: "is_boundary c"
        by (simp add: is_boundary_def)
      have "length (filter keep_token (split_tokens piece (c # cs))) =
            (if nonblank piece then 1 else 0) + 1 +
            length (filter keep_token (split_tokens [] cs))"
        using False True keep_punct[OF True] by (simp add: nonblank_def)
      also have "length (filter keep_token (split_tokens [] cs)) =
            length (filter nonblank (fragments is_boundary cs)) + length (filter is_punct cs)"
        using "2.IH"(2)[OF False True] by simp
      finally show ?thesis
        using True bc clean by (simp add: fragments_append_clean)
    next
      case np: False
      have "\<forall>x \<in> set (piece @ [c]). \<not> is_boundary x"
        using clean False np by (simp add: is_boundary_def)
      from "2.IH"(3)[OF False np this] show ?thesis
        using False np by simp
    qed
  qed
qed

lemma count_tokens_kept: "count_tokens s = kept_tokens s"
  using split_tokens_count[of "[]" s]
  by (simp add: count_tokens_def kept_tokens_def claimed_tokens_def)

text \<open>
  Claim C5, as stated, fails: on the text \<^verbatim>\<open>a.b\<close> the estimator of the source returns 3
  (the pieces \<^verbatim>\<open>a\<close> and \<^verbatim>\<open>b\<close> and the captured full stop), while splitting on the
  punctuation and counting the pieces that are left gives 2.
\<close>

theorem C5_claimed_estimate_counterexample:
  "estimateTokenCount (str ''a.b'') \<noteq> claimed_estimate (str ''a.b'') \<and>
   estimateTokenCount (str ''a.b'') = 3 \<and> claimed_estimate (str ''a.b'') = 2"
  by code_simp

text \<open>
  Claim C5, amended: for every text, \<open>estimateTokenCount\<close> is the token count of the
  prose stream plus the ceiling of 1.2 times the token count of the code stream, and 0
  for the empty text. The text is split into lines; a line whose trimmed content starts
  with three backticks flips the fenced state and joins neither stream; the lines read
  in the fenced state form the code stream, the others the prose stream. The token
  count of a stream is the number of nonblank pieces between white space and
  punctuation characters plus the number of punctuation characters in it: the split
  pattern captures each punctuation character, so it is kept as a token.
\<close>

theorem C5_estimate_amended: "estimateTokenCount text = amended_estimate text"
  by (simp add: estimateTokenCount_def amended_estimate_def scan_fold count_tokens_kept Let_def)

section \<open>Properties of the walk\<close>

text \<open>
  A walk that returns has added to the state exactly what the visited entries emit;
  in particular the root is a directory that could be listed.
\<close>

lemma emit_append: "emit dirPath st (es @ fs) = emit dirPath (emit dirPath st es) fs"
  by (induction es arbitrary: st) auto

lemma basename_join [simp]: "path_basename (path_join cur item) = item"
  by (simp add: path_basename_def path_join_def)

lemma walk_emit:
  "(processDirectory RegExp pats dirPath cur indent nd st = Inr st' \<longrightarrow>
      (\<exists>sub. nd = Dir sub \<and>
         st' = emit dirPath st (walk_entries RegExp pats cur indent (length sub) 0 sub)))"
  "(forEach_item RegExp pats dirPath cur indent n i items st = Inr st' \<longrightarrow>
      st' = emit dirPath st (walk_entries RegExp pats cur indent n i items))"
proof (induction RegExp pats dirPath cur indent nd st and RegExp pats dirPath cur indent n i items st
       arbitrary: st' and st' rule: processDirectory_forEach_item.induct)
  case (1 RegExp pats dirPath currentPath indent nd st)
  then show ?case
    by (cases nd) auto
next
  case (2 RegExp pats dirPath currentPath indent n index st)
  then show ?case by simp
next
  case (3 RegExp pats dirPath currentPath indent n index item nd rest st)
  show ?case
  proof
    assume run: "forEach_item RegExp pats dirPath currentPath indent n index ((item, nd) # rest) st = Inr st'"
    let ?full = "path_join currentPath item"
    show "st' = emit dirPath st (walk_entries RegExp pats currentPath indent n index ((item, nd) # rest))"
    proof (cases "shouldIgnore RegExp ?full pats")
      case (Inl e)
      with run show ?thesis by simp
    next
      case (Inr b)
      show ?thesis
      proof (cases b)
        case True
        with Inr run "3.IH"(1)[OF refl Inr] show ?thesis
          by (simp add: ignored_def)
      next
        case False
        have nb: "shouldIgnore RegExp ?full pats = Inr False"
          using Inr False by simp
        have ni: "\<not> ignored RegExp pats ?full"
          using nb by (simp add: ignored_def)

        show ?thesis
        proof (cases "statSync_isDirectory ?full nd")
          case (Inl e)
          with run nb show ?thesis by simp
        next
          case isd: (Inr isDir)
          let ?st1 = "st\<lparr>fileMap := fileMap st @ indent @ (if index = n - 1 then corner else tee) @ item @ [NL]\<rparr>"
          show ?thesis
          proof (cases isDir)
            case True
            let ?ind = "indent @ (if index = n - 1 then blank_indent else bar_indent)"
            from run nb isd True obtain st2 where
              sub: "processDirectory RegExp pats dirPath ?full ?ind nd ?st1 = Inr st2" and
              rest: "forEach_item RegExp pats dirPath currentPath indent n (index + 1) rest st2 = Inr st'"
              by (auto simp: Let_def split: sum.splits)
            from "3.IH"(2)[OF refl nb _ refl refl isd refl True] sub
            obtain items where nd: "nd = Dir items" and
              st2: "st2 = emit dirPath ?st1 (walk_entries RegExp pats ?full ?ind (length items) 0 items)"
              by auto
            from "3.IH"(3)[OF refl nb _ refl refl isd refl True sub] rest
            have "st' = emit dirPath st2 (walk_entries RegExp pats currentPath indent n (index + 1) rest)"
              by auto
            with st2 nd ni show ?thesis
              by (simp add: emit_append)
          next
            case False
            from run nb isd False obtain content where
              rd: "readFileSync ?full nd = Inr content" and
              rest: "forEach_item RegExp pats dirPath currentPath indent n (index + 1) rest
                       (?st1\<lparr>fileContents := fileContents ?st1 @ file_block (path_relative dirPath ?full) content,
                              fileTokens := object_set (fileTokens ?st1) (path_relative dirPath ?full) (estimateTokenCount content)\<rparr>) = Inr st'"
              by (auto simp: Let_def split: sum.splits)
            from rd have nd: "nd = File content"
              by (cases nd) auto
            from "3.IH"(4)[OF refl nb _ refl refl isd refl False rd refl refl] rest
            have "st' = emit dirPath
                       (?st1\<lparr>fileContents := fileContents ?st1 @ file_block (path_relative dirPath ?full) content,
                              fileTokens := object_set (fileTokens ?st1) (path_relative dirPath ?full) (estimateTokenCount content)\<rparr>)
                       (walk_entries RegExp pats currentPath indent n (index + 1) rest)"
              by auto
            with nd ni show ?thesis
              by simp
          qed
        qed
      qed
    qed
  qed
qed

lemma emit_fileMap: "fileMap (emit dirPath st es) = fileMap st @ diagram_of es"
  by (induction dirPath st es rule: emit.induct) (auto simp: diagram_of_def split: node.splits)

lemma emit_fileContents:
  "fileContents (emit dirPath st es) = fileContents st @ contents_of dirPath (files_of es)"
  by (induction dirPath st es rule: emit.induct) (auto simp: contents_of_def split: node.splits)

lemma emit_fileTokens:
  "fileTokens (emit dirPath st es) = tokens_of dirPath (fileTokens st) (files_of es)"
  by (induction dirPath st es rule: emit.induct) (auto simp: tokens_of_def split: node.splits)

lemma dom_tokens_of:
  "dom (tokens_of dirPath obj files) =
   dom obj \<union> ((\<lambda>(p, content). path_relative dirPath p) ` set files - {str ''__proto__''})"
  by (induction files arbitrary: obj) (auto simp: tokens_of_def object_set_def split: if_splits)

lemma tokens_of_snoc:
  "tokens_of dirPath obj (files @ [(p, content)]) =
   object_set (tokens_of dirPath obj files) (path_relative dirPath p) (estimateTokenCount content)"
  by (simp add: tokens_of_def)

lemma tokens_of_value:
  assumes "distinct (map (\<lambda>(p, content). path_relative dirPath p) files)"
    and "(p, content) \<in> set files"
    and "path_relative dirPath p \<noteq> str ''__proto__''"
  shows "tokens_of dirPath obj files (path_relative dirPath p) = Some (estimateTokenCount content)"
  using assms
proof (induction files rule: rev_induct)
  case Nil
  then show ?case by simp
next
  case (snoc x files)
  obtain q d where x: "x = (q, d)" by (cases x)
  show ?case
  proof (cases "(p, content) = (q, d)")
    case True
    with snoc.prems x show ?thesis
      by (simp add: tokens_of_snoc object_set_def)
  next
    case False
    with snoc.prems x have mem: "(p, content) \<in> set files" by auto
    with snoc.prems x have "path_relative dirPath q \<noteq> path_relative dirPath p"
      by (force simp: image_iff)
    with snoc.IH mem snoc.prems x show ?thesis
      by (simp add: tokens_of_snoc object_set_def)
  qed
qed

text \<open>The walk never looks at what an ignored entry leads to.\<close>

lemma length_prune [simp]: "length (prune RegExp pats cur items) = length items"
  by (induction items) auto

lemma forEach_prune:
  "forEach_item RegExp pats dirPath cur indent n i (prune RegExp pats cur items) st =
   forEach_item RegExp pats dirPath cur indent n i items st"
proof (induction RegExp pats cur items arbitrary: indent n i st rule: prune.induct)
  case (1 RegExp pats cur)
  then show ?case by simp
next
  case (2 RegExp pats cur item nd rest)
  show ?case
  proof (cases "ignored RegExp pats (path_join cur item)")
    case True
    then show ?thesis
      using "2.IH"(2) by (simp add: ignored_def)
  next
    case False
    show ?thesis
    proof (cases nd)
      case (Dir sub)
      with False "2.IH"(1)[OF False Dir] "2.IH"(2) show ?thesis
        by (simp add: Let_def cong: sum.case_cong bool.case_cong)
    qed (use False "2.IH"(2) in \<open>simp_all add: Let_def cong: sum.case_cong bool.case_cong\<close>)
  qed
qed

lemma prune_same_walk:
  assumes "prune RegExp pats cur items2 = prune RegExp pats cur items"
  shows "processDirectory RegExp pats dirPath cur indent (Dir items2) st =
         processDirectory RegExp pats dirPath cur indent (Dir items) st"
proof -
  from assms have len: "length items2 = length items"
    by (metis length_prune)
  have "forEach_item RegExp pats dirPath cur indent (length items2) 0 items2 st =
        forEach_item RegExp pats dirPath cur indent (length items2) 0 (prune RegExp pats cur items2) st"
    by (simp add: forEach_prune)
  also have "\<dots> = forEach_item RegExp pats dirPath cur indent (length items) 0 items st"
    using assms len by (simp add: forEach_prune)
  finally show ?thesis
    by simp
qed

lemma shouldIgnore_basename:
  "path_basename p = path_basename q \<Longrightarrow> shouldIgnore RegExp p pats = shouldIgnore RegExp q pats"
  by (simp add: shouldIgnore_def)

lemma ignored_name:
  "ignored RegExp pats (path_join cur item) = ignored RegExp pats \<lparr>base = b, below = [item]\<rparr>"
  unfolding ignored_def
  by (rule arg_cong[where f="\<lambda>x. x = Inr True"], rule shouldIgnore_basename)
     (simp add: path_basename_def path_join_def)

text \<open>
  Every visited entry lies below the directory walked, and no component of its path
  below that directory is the name of an ignored entry.
\<close>

lemma walk_entries_components:
  "(decor, p, nd) \<in> set (walk_entries RegExp pats cur indent n i items) \<Longrightarrow>
   base p = base cur \<and>
   (\<exists>names. below p = below cur @ names \<and> names \<noteq> [] \<and>
      (\<forall>name \<in> set names. \<not> ignored RegExp pats \<lparr>base = b, below = [name]\<rparr>))"
proof (induction RegExp pats cur indent n i items arbitrary: decor p nd rule: walk_entries.induct)
  case (1 RegExp pats cur indent n i)
  then show ?case by simp
next
  case (2 RegExp pats cur indent n i item nd' rest)
  let ?full = "path_join cur item"
  show ?case
  proof (cases "ignored RegExp pats ?full")
    case True
    with "2.prems" "2.IH"(1) show ?thesis by simp
  next
    case False
    then have nm: "\<not> ignored RegExp pats \<lparr>base = b, below = [item]\<rparr>"
      using ignored_name by blast
    from "2.prems" False consider
        (here) "p = ?full"
      | (sub) items' where "nd' = Dir items'"
          "(decor, p, nd) \<in> set (walk_entries RegExp pats ?full
              (indent @ (if i = n - 1 then blank_indent else bar_indent)) (length items') 0 items')"
      | (rest) "(decor, p, nd) \<in> set (walk_entries RegExp pats cur indent n (i + 1) rest)"
      by (auto split: node.splits)
    then show ?thesis
    proof cases
      case here
      with nm show ?thesis
        by (auto simp: path_join_def)
    next
      case sub
      from "2.IH"(2)[OF False sub(1) sub(2)] obtain names where
        "base p = base ?full" "below p = below ?full @ names" "names \<noteq> []"
        "\<forall>name \<in> set names. \<not> ignored RegExp pats \<lparr>base = b, below = [name]\<rparr>"
        by blast
      with nm show ?thesis
        by (auto simp: path_join_def intro!: exI[where x="item # names"])
    next
      case rest
      from "2.IH"(3)[OF False rest] show ?thesis .
    qed
  qed
qed

lemma generateFileMap_success:
  assumes "generateFileMap RegExp fs dirPath options = Inr (r, fs')"
  obtains items where
    "node_at fs dirPath = Dir items"
    "fileMap r = posix_basename dirPath @ [NL] @
       diagram_of (visited RegExp (patterns_of options) dirPath items)"
    "fileContents r =
       contents_of (top_of dirPath) (files_of (visited RegExp (patterns_of options) dirPath items))"
    "fileTokens r =
       tokens_of (top_of dirPath) Map.empty
         (files_of (visited RegExp (patterns_of options) dirPath items))"
proof -
  let ?st0 = "\<lparr>fileMap = posix_basename dirPath @ [NL], fileContents = [], fileTokens = Map.empty\<rparr>"
  from assms obtain st where
    walk: "processDirectory RegExp (patterns_of options) (top_of dirPath) (top_of dirPath) []
             (node_at fs dirPath) ?st0 = Inr st"
    and r: "fileMap r = fileMap st" "fileContents r = fileContents st" "fileTokens r = fileTokens st"
    by (auto simp: generateFileMap_def Let_def patterns_of_def top_of_def path_basename_def
             simp del: processDirectory.simps
             split: sum.splits option.splits if_splits)
  from walk_emit(1)[rule_format, OF walk] obtain items where
    nd: "node_at fs dirPath = Dir items" and
    st: "st = emit (top_of dirPath) ?st0 (visited RegExp (patterns_of options) dirPath items)"
    unfolding visited_def by blast
  show thesis
    using that[OF nd] r st
    by (simp add: emit_fileMap emit_fileContents emit_fileTokens contents_of_def)
qed

lemma map_sum_result_cong:
  assumes nd: "node_at fs dirPath = Dir items"
    and same: "prune RegExp (patterns_of options) (top_of dirPath) items2 =
               prune RegExp (patterns_of options) (top_of dirPath) items"
  shows "map_sum id fst
           (generateFileMap RegExp (fs\<lparr>node_at := (node_at fs)(dirPath := Dir items2)\<rparr>) dirPath options) =
         map_sum id fst (generateFileMap RegExp fs dirPath options)"
  using nd prune_same_walk[OF same, of "top_of dirPath" "[]"]
  by (simp add: generateFileMap_def existsSync_def writeFileSync_def Let_def
        patterns_of_def top_of_def
      del: processDirectory.simps split: sum.splits option.splits)

text \<open>
  For every call that returns: no entry the walk visits has, anywhere on its path
  below the root, a name for which \<open>shouldIgnore\<close> returns true; the diagram, the
  contents and the token counts are built from the visited entries alone, a line per
  entry, a block and a count per file; and the result stays the same when the entries
  for which \<open>shouldIgnore\<close> returns true lead to anything else, so that the walk neither
  descends into them nor reads them.
\<close>

lemma skipped_entries_untouched:
  assumes "generateFileMap RegExp fs dirPath options = Inr (r, fs')"
  shows "\<exists>items. node_at fs dirPath = Dir items \<and>
     (\<forall>(decor, p, nd) \<in> set (visited RegExp (patterns_of options) dirPath items).
        \<forall>name \<in> set (below p).
          shouldIgnore RegExp \<lparr>base = dirPath, below = [name]\<rparr> (patterns_of options) \<noteq> Inr True) \<and>
     fileMap r = posix_basename dirPath @ [NL] @
       diagram_of (visited RegExp (patterns_of options) dirPath items) \<and>
     fileContents r =
       contents_of (top_of dirPath) (files_of (visited RegExp (patterns_of options) dirPath items)) \<and>
     fileTokens r =
       tokens_of (top_of dirPath) Map.empty
         (files_of (visited RegExp (patterns_of options) dirPath items)) \<and>
     (\<forall>items2.
        prune RegExp (patterns_of options) (top_of dirPath) items2 =
        prune RegExp (patterns_of options) (top_of dirPath) items \<longrightarrow>
        map_sum id fst
          (generateFileMap RegExp (fs\<lparr>node_at := (node_at fs)(dirPath := Dir items2)\<rparr>)
             dirPath options) = Inr r)"
proof -
  from assms obtain items where
    nd: "node_at fs dirPath = Dir items" and
    out: "fileMap r = posix_basename dirPath @ [NL] @
       diagram_of (visited RegExp (patterns_of options) dirPath items)"
    "fileContents r =
       contents_of (top_of dirPath) (files_of (visited RegExp (patterns_of options) dirPath items))"
    "fileTokens r =
       tokens_of (top_of dirPath) Map.empty
         (files_of (visited RegExp (patterns_of options) dirPath items))"
    by (rule generateFileMap_success)
  have names: "shouldIgnore RegExp \<lparr>base = dirPath, below = [name]\<rparr> (patterns_of options) \<noteq> Inr True"
    if "(decor, p, nd) \<in> set (visited RegExp (patterns_of options) dirPath items)"
      and "name \<in> set (below p)" for decor p nd name
    using walk_entries_components[OF that(1)[unfolded visited_def], of dirPath] that(2)
    by (auto simp: top_of_def ignored_def)
  have indep: "map_sum id fst
          (generateFileMap RegExp (fs\<lparr>node_at := (node_at fs)(dirPath := Dir items2)\<rparr>)
             dirPath options) = Inr r"
    if "prune RegExp (patterns_of options) (top_of dirPath) items2 =
        prune RegExp (patterns_of options) (top_of dirPath) items" for items2
    using map_sum_result_cong[OF nd that] assms by simp
  from nd out names indep show ?thesis
    by blast
qed

text \<open>
  The keys of \<^verbatim>\<open>fileTokens\<close> after a call that returns: the relative paths of the files
  visited, but for the key \<^verbatim>\<open>__proto__\<close>, which an assignment never creates.
\<close>

lemma fileTokens_keys:
  assumes "generateFileMap RegExp fs dirPath options = Inr (r, fs')"
  shows "\<exists>items. node_at fs dirPath = Dir items \<and>
     dom (fileTokens r) =
       (\<lambda>(p, content). path_relative (top_of dirPath) p) `
          set (files_of (visited RegExp (patterns_of options) dirPath items)) - {str ''__proto__''}"
proof -
  from assms obtain items where
    "node_at fs dirPath = Dir items"
    "fileTokens r =
       tokens_of (top_of dirPath) Map.empty
         (files_of (visited RegExp (patterns_of options) dirPath items))"
    by (rule generateFileMap_success)
  then show ?thesis
    by (auto simp: dom_tokens_of)
qed

text \<open>
  The values: where the relative paths of the visited files are distinct, as they are
  when the names in each directory are distinct and hold no separator, each key leads
  to the estimate of the text of its file.
\<close>

lemma fileTokens_values:
  assumes "generateFileMap RegExp fs dirPath options = Inr (r, fs')"
    and "node_at fs dirPath = Dir items"
    and "distinct (map (\<lambda>(p, content). path_relative (top_of dirPath) p)
           (files_of (visited RegExp (patterns_of options) dirPath items)))"
    and "(p, content) \<in> set (files_of (visited RegExp (patterns_of options) dirPath items))"
    and "path_relative (top_of dirPath) p \<noteq> str ''__proto__''"
  shows "fileTokens r (path_relative (top_of dirPath) p) = Some (estimateTokenCount content)"
proof -
  from assms(1) obtain items' where
    "node_at fs dirPath = Dir items'"
    "fileTokens r =
       tokens_of (top_of dirPath) Map.empty
         (files_of (visited RegExp (patterns_of options) dirPath items'))"
    by (rule generateFileMap_success)
  with assms(2) have "fileTokens r =
       tokens_of (top_of dirPath) Map.empty
         (files_of (visited RegExp (patterns_of options) dirPath items))"
    by simp
  with tokens_of_value[OF assms(3) assms(4) assms(5)] show ?thesis
    by simp
qed

section \<open>Exceptions\<close>







lemma errno_text_hd: "\<exists>t. errno_text e = 0x45 # t"
  by (cases e) (simp_all add: str_def)

lemma message_not_directory_not_found:
  "\<not> is_Error e \<Longrightarrow> message e \<noteq> str ''Directory not found: '' @ p"
proof (cases e)
  case (SystemError en syscall q)
  obtain t where "errno_text en = 0x45 # t"
    using errno_text_hd by blast
  with SystemError show ?thesis
    by (simp add: str_def)
qed (simp_all add: str_def)

text \<open>
  \<open>js_includes\<close> is occurrence as a contiguous part. The message of the \<^verbatim>\<open>ENOTDIR\<close>
  error of a listing holds the phrase \<^verbatim>\<open>Directory not found\<close> exactly when the path does.
\<close>

lemma startsWith_iff: "startsWith s p \<longleftrightarrow> (\<exists>ys. s = p @ ys)"
  unfolding startsWith_def
  by (metis append_eq_conv_conj append_take_drop_id)

lemma js_includes_iff: "js_includes s sub \<longleftrightarrow> (\<exists>xs ys. s = xs @ sub @ ys)"
proof (induction s)
  case Nil
  then show ?case by auto
next
  case (Cons c cs)
  have "(\<exists>xs ys. c # cs = xs @ sub @ ys) \<longleftrightarrow>
        (\<exists>ys. c # cs = sub @ ys) \<or> (\<exists>xs ys. cs = xs @ sub @ ys)"
  proof
    assume "\<exists>xs ys. c # cs = xs @ sub @ ys"
    then obtain xs ys where eq: "c # cs = xs @ sub @ ys" by blast
    show "(\<exists>ys. c # cs = sub @ ys) \<or> (\<exists>xs ys. cs = xs @ sub @ ys)"
    proof (cases xs)
      case Nil
      with eq show ?thesis by auto
    next
      case (Cons x xs')
      with eq show ?thesis by auto
    qed
  next
    assume "(\<exists>ys. c # cs = sub @ ys) \<or> (\<exists>xs ys. cs = xs @ sub @ ys)"
    then show "\<exists>xs ys. c # cs = xs @ sub @ ys"
    proof
      assume "\<exists>ys. c # cs = sub @ ys"
      then show ?thesis by (metis append_Nil)
    next
      assume "\<exists>xs ys. cs = xs @ sub @ ys"
      then show ?thesis by (metis append_Cons)
    qed
  qed
  with Cons show ?case
    by (simp add: startsWith_iff)
qed

lemma js_includes_embedded: "js_includes s sub \<Longrightarrow> js_includes (a @ s @ b) sub"
  unfolding js_includes_iff by (metis append.assoc)

lemma startsWith_snoc:
  "startsWith (s @ [q]) sub \<Longrightarrow> q \<notin> set sub \<Longrightarrow> startsWith s sub"
  unfolding startsWith_iff
proof -
  assume "\<exists>ys. s @ [q] = sub @ ys" and nq: "q \<notin> set sub"
  then obtain ys where eq: "s @ [q] = sub @ ys" by blast
  show "\<exists>ys. s = sub @ ys"
  proof (cases ys rule: rev_cases)
    case Nil
    with eq nq show ?thesis
      by (metis append_Nil2 in_set_conv_decomp)
  next
    case (snoc ys' y)
    with eq have "s = sub @ ys'"
      by (metis append.assoc append1_eq_conv)
    then show ?thesis by blast
  qed
qed

lemma js_includes_snoc:
  "\<not> js_includes s sub \<Longrightarrow> q \<notin> set sub \<Longrightarrow> sub \<noteq> [] \<Longrightarrow> \<not> js_includes (s @ [q]) sub"
proof (induction s)
  case Nil
  then show ?case
    by (cases sub) (auto simp: startsWith_def)
next
  case (Cons c cs)
  then show ?case
    using startsWith_snoc[of "c # cs" q sub] by auto
qed

lemma enotdir_message:
  "message (SystemError ENOTDIR (str ''scandir'') p) =
   str ''ENOTDIR: not a directory, scandir '' @ [quote] @ p @ [quote]"
  by (simp add: str_def)

lemma enotdir_includes:
  "js_includes (message (SystemError ENOTDIR (str ''scandir'') p)) (str ''Directory not found'') \<longleftrightarrow>
   js_includes p (str ''Directory not found'')"
proof
  assume "js_includes p (str ''Directory not found'')"
  then show "js_includes (message (SystemError ENOTDIR (str ''scandir'') p)) (str ''Directory not found'')"
    unfolding enotdir_message
    using js_includes_embedded[of p _ "str ''ENOTDIR: not a directory, scandir '' @ [quote]" "[quote]"]
    by simp
next
  assume inc: "js_includes (message (SystemError ENOTDIR (str ''scandir'') p)) (str ''Directory not found'')"
  have "js_includes (message (SystemError ENOTDIR (str ''scandir'') p)) (str ''Directory not found'') =
        js_includes (p @ [quote]) (str ''Directory not found'')"
    by (simp add: str_def startsWith_def quote_def)
  with inc have "js_includes (p @ [quote]) (str ''Directory not found'')"
    by simp
  moreover have "quote \<notin> set (str ''Directory not found'')" "str ''Directory not found'' \<noteq> []"
    by (simp_all add: str_def quote_def)
  ultimately show "js_includes p (str ''Directory not found'')"
    using js_includes_snoc by blast
qed

section \<open>The ignore matcher on safe patterns\<close>

text \<open>
  On the engine of the fragment, and for patterns that are all safe, \<open>shouldIgnore\<close>
  returns, and returns true exactly when some pattern matches the base name by the
  rule above. The patterns that are not safe are where claims C2 and C3 fail.
\<close>

lemma translate_simps:
  "translate [] = [dollar]"
  "translate (c # p) =
     (if c = dot then backslash # dot # translate p
      else if c = star then dot # star # translate p
      else c # translate p)"
  by (auto simp: translate_def expand_stars_def escape_dots_def dot_def star_def backslash_def)

lemma translate_no_quantifier:
  "safe_pattern p \<Longrightarrow> read_quantifier (translate p) = (Once, translate p)"
  by (cases p)
     (auto simp: translate_simps safe_pattern_def is_syntax_char_def
        dot_def star_def backslash_def dollar_def Let_def)

lemma translate_not_lazy:
  "safe_pattern p \<Longrightarrow> read_quantifier (star # translate p) = (ZeroOrMore, translate p)"
  by (cases p)
     (auto simp: translate_simps safe_pattern_def is_syntax_char_def
        dot_def star_def backslash_def dollar_def Let_def)

lemma parse_translate:
  "safe_pattern p \<Longrightarrow> parse_pattern (translate p) = Parsed (map term_of p @ [Eol])"
proof (induction p)
  case Nil
  then show ?case
    by (simp add: translate_simps dollar_def caret_def)
next
  case (Cons c p)
  then have sp: "safe_pattern p" and c: "c = dot \<or> c = star \<or> \<not> is_syntax_char c"
    by (simp_all add: safe_pattern_def)
  note q = translate_no_quantifier[OF sp] translate_not_lazy[OF sp]
  from c consider "c = dot" | "c = star" | "c \<noteq> dot" "c \<noteq> star" "\<not> is_syntax_char c"
    by blast
  then show ?case
  proof cases
    case 1
    then show ?thesis
      using q Cons.IH[OF sp]
      by (simp add: translate_simps term_of_def is_syntax_char_def
            dot_def star_def backslash_def dollar_def caret_def)
  next
    case 2
    then show ?thesis
      using q Cons.IH[OF sp]
      by (simp add: translate_simps term_of_def is_syntax_char_def
            dot_def star_def backslash_def dollar_def caret_def)
  next
    case 3
    then show ?thesis
      using q Cons.IH[OF sp]
      by (auto simp: translate_simps term_of_def is_syntax_char_def
            dot_def star_def backslash_def dollar_def caret_def)
  qed
qed

lemma matches_glob: "matches_from (map term_of p @ [Eol]) b s = glob p s"
  by (induction p s arbitrary: b rule: glob.induct) (auto simp: term_of_def)

lemma search_Bol_later: "search (Bol # ts) False s = False"
  by (induction s) auto

lemma search_Bol: "search (Bol # ts) True s = matches_from ts True s"
  by (cases s) (auto simp: search_Bol_later)

lemma fragment_regexp_glob:
  assumes "safe_pattern p"
  shows "fragment_regexp ([caret] @ expand_stars (escape_dots p) @ [dollar]) =
         Inr (\<lambda>name. glob p name)"
proof -
  have "parse_pattern ([caret] @ expand_stars (escape_dots p) @ [dollar]) =
        Parsed (Bol # map term_of p @ [Eol])"
    using parse_translate[OF assms] by (simp add: translate_def)
  moreover have "search (Bol # map term_of p @ [Eol]) True = (\<lambda>name. glob p name)"
    by (simp add: fun_eq_iff search_Bol matches_glob)
  ultimately show ?thesis
    by (simp only: fragment_regexp_def parse.case)
qed

lemma glob_self: "safe_pattern p \<Longrightarrow> glob p p"
proof (induction p)
  case Nil
  then show ?case by simp
next
  case (Cons c p)
  then have "glob p p" by (simp add: safe_pattern_def)
  moreover have "\<not> is_line_terminator star"
    by (simp add: is_line_terminator_def star_def)
  moreover have "glob (star # p) p" if "glob p p"
    using that by (cases p) auto
  ultimately show ?case by auto
qed

lemma matches_pattern_glob:
  assumes "safe_pattern p"
  shows "matches_pattern fragment_regexp name p = Inr (pattern_matches name p)"
  using fragment_regexp_glob[OF assms] glob_self[OF assms]
  by (auto simp: matches_pattern_def pattern_matches_def Let_def)

lemma some_pattern_glob:
  "list_all safe_pattern pats \<Longrightarrow>
   some_pattern (matches_pattern fragment_regexp name) pats =
     Inr (list_ex (pattern_matches name) pats)"
  by (induction pats) (auto simp: matches_pattern_glob)

lemma shouldIgnore_glob:
  "list_all safe_pattern pats \<Longrightarrow>
   shouldIgnore fragment_regexp itemPath pats =
     Inr (list_ex (pattern_matches (path_basename itemPath)) pats)"
  by (simp add: shouldIgnore_def some_pattern_glob)

text \<open>
  So for safe patterns no visited entry has, on its path below the root, a name that
  matches a pattern by the rule.
\<close>

lemma safe_patterns_skip:
  assumes "list_all safe_pattern pats"
    and "(decor, p, nd) \<in> set (visited fragment_regexp pats dirPath items)"
    and "name \<in> set (below p)"
  shows "\<not> list_ex (pattern_matches name) pats"
proof -
  from walk_entries_components[OF assms(2)[unfolded visited_def], of dirPath] assms(3)
  have "\<not> ignored fragment_regexp pats \<lparr>base = dirPath, below = [name]\<rparr>"
    by (auto simp: top_of_def)
  then show ?thesis
    using shouldIgnore_glob[OF assms(1), of "\<lparr>base = dirPath, below = [name]\<rparr>"]
    by (simp add: ignored_def path_basename_def)
qed

section \<open>The written file\<close>


lemma paired_utf8_text: "utf8_text s = s \<Longrightarrow> paired s"
  by (induction s rule: paired.induct)
     (auto simp: is_high_surrogate_def is_low_surrogate_def split: if_splits)

lemma paired_append: "paired a \<Longrightarrow> paired b \<Longrightarrow> paired (a @ b)"
proof (induction a rule: paired.induct)
  case 1
  then show ?case by simp
next
  case (2 c)
  then show ?case by (cases b) auto
next
  case (3 c d cs)
  then show ?case by (auto split: if_splits)
qed

lemma posix_basename_examples:
  "posix_basename (str ''/x/r/'') = str ''r'' \<and>
   posix_basename (str ''/x/r'') = str ''r'' \<and>
   posix_basename (str ''r'') = str ''r'' \<and>
   posix_basename (str ''a/b//'') = str ''b'' \<and>
   posix_basename (str ''/'') = []"
  by code_simp

section \<open>The claims\<close>

text \<open>
  Claim C1 (the connector of a diagram line is the corner exactly for the last entry
  of its directory that is not ignored, and the indentation below an entry follows the
  same rule): the source decides \<^verbatim>\<open>isLast\<close> from the index in the whole listing, ignored
  entries included. In \<open>fs_demo\<close> with the pattern \<^verbatim>\<open>skip\<close> the entry \<^verbatim>\<open>d\<close> is the last
  entry of the root that is not ignored, and the ignored \<^verbatim>\<open>skip\<close> comes after it: the
  line of \<^verbatim>\<open>d\<close> gets the tee, and the line of \<^verbatim>\<open>b\<close> below it the bar indentation,
  where the claim asks for the corner and for four spaces.
\<close>

theorem C1_last_survivor_gets_tee:
  "(case generateFileMap fragment_regexp fs_demo (str ''/r'')
           \<lparr>outputPath = None, ignorePatterns = Some [str ''skip'']\<rparr> of
      Inl e \<Rightarrow> False
    | Inr (r, fs') \<Rightarrow>
        fileMap r =
          str ''r'' @ [NL] @
          tee @ str ''a'' @ [NL] @
          tee @ str ''d'' @ [NL] @
          bar_indent @ corner @ str ''b'' @ [NL])"
  by code_simp

text \<open>
  Claim C2 (\<open>shouldIgnore\<close> never raises, whatever the pattern): only the full stop is
  escaped before the pattern goes to \<^verbatim>\<open>new RegExp\<close>. The pattern \<^verbatim>\<open>*[\<close> becomes the
  source \<^verbatim>\<open>^.*[$\<close>, whose character class is never closed, and the \<^verbatim>\<open>SyntaxError\<close> of
  the constructor comes out of \<open>shouldIgnore\<close>.
\<close>

theorem C2_unbalanced_bracket_raises:
  "shouldIgnore fragment_regexp \<lparr>base = str ''/r'', below = [str ''x'']\<rparr> [str ''*[''] =
     Inl (SyntaxError (str ''^.*[$'') (str ''Unterminated character class''))"
  by code_simp

text \<open>
  Claim C3 (in a pattern with a star every other character, regular expression
  metacharacters included, stands for itself): a plus sign is not escaped and is a
  quantifier in the regular expression. The pattern \<^verbatim>\<open>a+b*\<close> becomes the source
  \<^verbatim>\<open>^a+b.*$\<close>, which does not match the name \<^verbatim>\<open>a+b\<close> and does match the name
  \<^verbatim>\<open>aab\<close>; read literally the pattern matches the first name and not the second.
\<close>

theorem C3_plus_is_a_quantifier:
  "shouldIgnore fragment_regexp \<lparr>base = str ''/r'', below = [str ''a+b'']\<rparr> [str ''a+b*''] =
     Inr False \<and>
   shouldIgnore fragment_regexp \<lparr>base = str ''/r'', below = [str ''aab'']\<rparr> [str ''a+b*''] =
     Inr True"
  by code_simp



text \<open>
  Claim C6 (the keys of \<^verbatim>\<open>fileTokens\<close> are exactly the relative paths of the files
  visited): a file named \<^verbatim>\<open>__proto__\<close> in the root directory is visited and read, its
  block is in \<^verbatim>\<open>fileContents\<close>, but the assignment to the key \<^verbatim>\<open>__proto__\<close> creates no
  property, so the key is missing. \<open>fileTokens_keys\<close> above gives the keys of every
  call: this is the only path left out.
\<close>

theorem C6_proto_key_missing:
  "(case generateFileMap fragment_regexp fs_proto (str ''/r'')
           \<lparr>outputPath = None, ignorePatterns = None\<rparr> of
      Inl e \<Rightarrow> False
    | Inr (r, fs') \<Rightarrow>
        fileMap r = str ''r'' @ [NL] @ corner @ str ''__proto__'' @ [NL] \<and>
        fileContents r = file_block (str ''__proto__'') (str ''x'') \<and>
        fileTokens r (str ''__proto__'') = None)"
  by code_simp

text \<open>
  Claim C7 (an entry whose base name matches an ignore pattern is skipped entirely and
  appears in none of the outputs): the walk skips exactly the entries for which
  \<open>shouldIgnore\<close> returns true (\<open>skipped_entries_untouched\<close> above), and that answer
  follows the rule of the patterns only where they are safe (\<open>safe_patterns_skip\<close>).
  In \<open>fs_plus\<close> the name \<^verbatim>\<open>a+b\<close> matches the pattern \<^verbatim>\<open>a+b*\<close> by the rule, the plus
  sign standing for itself; the source hands the plus sign to the regular expression
  as a quantifier, \<open>shouldIgnore\<close> returns false, and the file is visited and read: its
  line is in the diagram, its block in the contents and its count in the mapping.
\<close>

theorem C7_matching_entry_visited:
  "list_ex (pattern_matches (str ''a+b'')) [str ''a+b*''] \<and>
   (case generateFileMap fragment_regexp fs_plus (str ''/r'')
           \<lparr>outputPath = None, ignorePatterns = Some [str ''a+b*'']\<rparr> of
      Inl e \<Rightarrow> False
    | Inr (r, fs') \<Rightarrow>
        fileMap r = str ''r'' @ [NL] @ corner @ str ''a+b'' @ [NL] \<and>
        fileContents r = file_block (str ''a+b'') (str ''x'') \<and>
        fileTokens r (str ''a+b'') = Some 1)"
  by code_simp




text \<open>
  Claim C9: for every call that returns, the token count of the diagram is the
  estimate of the returned diagram, the token count of the contents is the estimate of
  the returned contents, and the total is their sum.
\<close>

theorem C9_token_counts:
  assumes "generateFileMap RegExp fs dirPath options = Inr (r, fs')"
  shows "fileMapTokens (tokenCount r) = estimateTokenCount (fileMap r) \<and>
         fileContentsTokens (tokenCount r) = estimateTokenCount (fileContents r) \<and>
         totalTokens (tokenCount r) = fileMapTokens (tokenCount r) + fileContentsTokens (tokenCount r)"
  using assms
  by (auto simp: generateFileMap_def Let_def split: if_splits sum.splits option.splits)

theorem C9_witness:
  "\<exists>r fs'.
     generateFileMap fragment_regexp fs_demo (str ''/r'')
       \<lparr>outputPath = None, ignorePatterns = Some [str ''skip'']\<rparr> = Inr (r, fs') \<and>
     fileMapTokens (tokenCount r) = estimateTokenCount (fileMap r) \<and>
     fileContentsTokens (tokenCount r) = estimateTokenCount (fileContents r) \<and>
     totalTokens (tokenCount r) =
       fileMapTokens (tokenCount r) + fileContentsTokens (tokenCount r) \<and>
     totalTokens (tokenCount r) = 20"
proof -
  let ?opts = "\<lparr>outputPath = None, ignorePatterns = Some [str ''skip'']\<rparr>"
  have "case generateFileMap fragment_regexp fs_demo (str ''/r'') ?opts of
          Inl e \<Rightarrow> False
        | Inr (r, fs') \<Rightarrow> totalTokens (tokenCount r) = 20"
    by code_simp
  then obtain r fs' where
    run: "generateFileMap fragment_regexp fs_demo (str ''/r'') ?opts = Inr (r, fs')" and
    total: "totalTokens (tokenCount r) = 20"
    by (auto split: sum.splits)
  from C9_token_counts[OF run] run total show ?thesis
    by blast
qed

text \<open>
  Claim C10, as stated, fails: a file named \<^verbatim>\<open>Directory not found\<close> exists and is not
  a directory, the call fails in the listing, and the message of that failure,
  \<^verbatim>\<open>ENOTDIR: not a directory, scandir 'Directory not found'\<close>, holds the phrase
  \<^verbatim>\<open>Directory not found\<close>, since the message quotes the path.
\<close>

theorem C10_phrase_in_path_counterexample:
  "existsSync fs_phrase (str ''Directory not found'') \<and>
   statSync_isDirectory \<lparr>base = str ''Directory not found'', below = []\<rparr>
     (node_at fs_phrase (str ''Directory not found'')) = Inr False \<and>
   (case generateFileMap fragment_regexp fs_phrase (str ''Directory not found'')
           \<lparr>outputPath = None, ignorePatterns = None\<rparr> of
      Inl e \<Rightarrow> js_includes (message e) (str ''Directory not found'')
    | Inr r \<Rightarrow> False)"
  by code_simp

text \<open>
  Claim C10, amended: for every root path that exists but is not a directory, the
  existence check passes and the call fails in the listing of the root with the system
  error \<^verbatim>\<open>ENOTDIR\<close> of \<^verbatim>\<open>scandir\<close>. Its message is
  \<^verbatim>\<open>ENOTDIR: not a directory, scandir '<rootPath>'\<close>, which is not the message
  \<^verbatim>\<open>Directory not found: <rootPath>\<close>, and which holds the phrase
  \<^verbatim>\<open>Directory not found\<close> exactly when the root path itself holds it.
\<close>

theorem C10_not_a_directory:
  assumes "statSync_isDirectory \<lparr>base = dirPath, below = []\<rparr> (node_at fs dirPath) = Inr False"
  shows "existsSync fs dirPath \<and>
         generateFileMap RegExp fs dirPath options =
           Inl (SystemError ENOTDIR (str ''scandir'') dirPath) \<and>
         message (SystemError ENOTDIR (str ''scandir'') dirPath) =
           str ''ENOTDIR: not a directory, scandir '' @ [quote] @ dirPath @ [quote] \<and>
         message (SystemError ENOTDIR (str ''scandir'') dirPath) \<noteq>
           str ''Directory not found: '' @ dirPath \<and>
         js_includes (message (SystemError ENOTDIR (str ''scandir'') dirPath))
             (str ''Directory not found'') =
           js_includes dirPath (str ''Directory not found'')"
proof -
  from assms have "existsSync fs dirPath \<and>
         generateFileMap RegExp fs dirPath options =
           Inl (SystemError ENOTDIR (str ''scandir'') dirPath)"
    by (cases "node_at fs dirPath")
       (simp_all add: generateFileMap_def existsSync_def path_text_def)
  moreover have "message (SystemError ENOTDIR (str ''scandir'') dirPath) \<noteq>
           str ''Directory not found: '' @ dirPath"
    by (rule message_not_directory_not_found) simp
  ultimately show ?thesis
    using enotdir_message enotdir_includes by blast
qed

theorem C10_witness:
  "statSync_isDirectory \<lparr>base = str ''/f'', below = []\<rparr> (node_at fs_demo (str ''/f'')) =
     Inr False \<and>
   generateFileMap fragment_regexp fs_demo (str ''/f'')
       \<lparr>outputPath = None, ignorePatterns = None\<rparr> =
     Inl (SystemError ENOTDIR (str ''scandir'') (str ''/f'')) \<and>
   \<not> js_includes (message (SystemError ENOTDIR (str ''scandir'') (str ''/f'')))
       (str ''Directory not found'')"
proof -
  have isfile: "statSync_isDirectory \<lparr>base = str ''/f'', below = []\<rparr>
                (node_at fs_demo (str ''/f'')) = Inr False"
    by code_simp
  have "\<not> js_includes (str ''/f'') (str ''Directory not found'')"
    by code_simp
  with C10_not_a_directory[OF isfile, of fragment_regexp
         "\<lparr>outputPath = None, ignorePatterns = None\<rparr>"] isfile
  show ?thesis
    by blast
qed

end
